theory Spec2Isabelle
  imports Main "HOL-Library.Word" "HOL-Library.Multiset"
begin

section \<open>The in-memory store (store/memstore/mem.go)\<close>

text \<open>
  Go's \<^verbatim>\<open>[]byte\<close> is either the nil slice or a slice with elements; the two are
  told apart by \<^verbatim>\<open>val == nil\<close>, so the model keeps them apart too. A Go string is a
  sequence of bytes; \<^verbatim>\<open>string(key)\<close> reads the bytes of the slice, and the nil
  slice gives the empty string.
\<close>

type_synonym byte = "8 word"

datatype slice = Nil_slice | Slice "byte list"

type_synonym gostring = "byte list"

text \<open>Go's \<^verbatim>\<open>error\<close> interface; the nil error is \<open>None\<close> of \<open>error option\<close>.\<close>

datatype error = Error string

fun len :: "slice \<Rightarrow> nat" where
  "len Nil_slice = 0"
| "len (Slice bs) = length bs"

fun elems :: "slice \<Rightarrow> byte list" where
  "elems Nil_slice = []"
| "elems (Slice bs) = bs"

definition string_of :: "slice \<Rightarrow> gostring" where
  "string_of key = elems key"

text \<open>\<^verbatim>\<open>make([]byte, n)\<close>: a fresh non-nil slice of n zero bytes.\<close>

definition make_bytes :: "nat \<Rightarrow> slice" where
  "make_bytes n = Slice (replicate n 0)"

text \<open>
  \<^verbatim>\<open>copy(dst, src)\<close> overwrites the first \<open>min (len dst) (len src)\<close> elements of
  dst with those of src; the result is dst after the call.
\<close>

fun copy :: "slice \<Rightarrow> slice \<Rightarrow> slice" where
  "copy Nil_slice src = Nil_slice"
| "copy (Slice d) src =
     (let n = min (length d) (len src) in Slice (take n (elems src) @ drop n d))"

text \<open>
  \<^verbatim>\<open>type memstore struct { mu sync.RWMutex; m map[string][]byte }\<close>.
  Every method runs its whole body under the mutex, so each method is one atomic
  transition on the map. A method takes the store and returns its results together
  with the store after the call.
\<close>

record memstore =
  m :: "gostring \<rightharpoonup> slice"

definition NewStore :: "memstore \<times> error option" where
  "NewStore = (\<lparr>m = Map.empty\<rparr>, None)"

text \<open>
  \<^verbatim>\<open>
  func (s *memstore) Get(key []byte) ([]byte, error) {
      var val []byte
      if data, ok := s.m[string(key)]; ok {
          val = make([]byte, len(data))
          copy(val, data)
      }
      return val, nil
  }
  \<close>
\<close>

definition Get :: "memstore \<Rightarrow> slice \<Rightarrow> (slice \<times> error option) \<times> memstore" where
  "Get s key =
     (case m s (string_of key) of
        Some data \<Rightarrow> ((copy (make_bytes (len data)) data, None), s)
      | None \<Rightarrow> ((Nil_slice, None), s))"

text \<open>
  \<^verbatim>\<open>
  func (s *memstore) Put(key, val []byte) error {
      s.m[string(key)] = val
      return nil
  }
  \<close>
\<close>

definition Put :: "memstore \<Rightarrow> slice \<Rightarrow> slice \<Rightarrow> error option \<times> memstore" where
  "Put s key val = (None, s\<lparr>m := (m s)(string_of key \<mapsto> val)\<rparr>)"

text \<open>
  \<^verbatim>\<open>
  func (s *memstore) Clean() error {
      s.m = make(map[string][]byte)
      return nil
  }
  \<close>
\<close>

definition Clean :: "memstore \<Rightarrow> error option \<times> memstore" where
  "Clean s = (None, s\<lparr>m := Map.empty\<rparr>)"

text \<open>\<^verbatim>\<open>func (s *memstore) Close() error { return nil }\<close>\<close>

definition Close :: "memstore \<Rightarrow> error option \<times> memstore" where
  "Close s = (None, s)"

section \<open>The RPC service definition (lazarette/lazarette.proto)\<close>

text \<open>
  \<^verbatim>\<open>
  service Lazarette {
      rpc Get (Key) returns (Value) {}
      rpc Set (KeyValue) returns (google.protobuf.Empty) {}
      rpc Subscribe(Key) returns (stream KeyValue) {}
  }
  message Key { ... }  message Value { ... }  message KeyValue { ... }
  \<close>
  An rpc is its name, its request message, its response message and whether the
  response is a stream. A call is dispatched by the rpc's name; a name the service
  does not declare has no rpc.
\<close>

record rpc =
  rpc_name :: string
  rpc_request :: string
  rpc_response :: string
  rpc_stream :: bool

definition Lazarette :: "rpc list" where
  "Lazarette =
     [\<lparr>rpc_name = ''Get'', rpc_request = ''Key'', rpc_response = ''Value'',
        rpc_stream = False\<rparr>,
      \<lparr>rpc_name = ''Set'', rpc_request = ''KeyValue'',
        rpc_response = ''google.protobuf.Empty'', rpc_stream = False\<rparr>,
      \<lparr>rpc_name = ''Subscribe'', rpc_request = ''Key'', rpc_response = ''KeyValue'',
        rpc_stream = True\<rparr>]"

definition proto_messages :: "string list" where
  "proto_messages = [''Key'', ''Value'', ''KeyValue'']"

definition find_rpc :: "string \<Rightarrow> rpc option" where
  "find_rpc name = List.find (\<lambda>r. rpc_name r = name) Lazarette"

section \<open>The HTTP listener (serveHTTP, server_test.go lines 299-315)\<close>

text \<open>
  \<^verbatim>\<open>
  func (s *Server) serveHTTP(l net.Listener, wg *sync.WaitGroup) {
      s.echo = echo.New()
      ...
      // TODO add endpoints here
      s.echo.GET("/", func(c echo.Context) error {
          return c.String(http.StatusOK, "hello!")
      })
      if err := s.echo.Start(""); err != nil { ... }
  }
  \<close>
  The listener serves the routes that serveHTTP registers. A route is a method, a path
  and a handler; the one path registered has no parameter, so it matches a request
  path by equality. A request whose path no route has is answered by the router's
  not-found error, one whose path is registered under other methods only by its
  method-not-allowed error.
\<close>

datatype http_method = GET | HEAD | POST | PUT | PATCH | DELETE | CONNECT | OPTIONS | TRACE

record http_request =
  req_method :: http_method
  req_path :: string
  req_body :: string

record http_response =
  status :: nat
  headers :: "(string \<times> string) list"
  body :: string

datatype http_error = ErrNotFound | ErrMethodNotAllowed

type_synonym handler = "http_request \<Rightarrow> http_response"

definition StatusOK :: nat where
  "StatusOK = 200"

text \<open>\<^verbatim>\<open>c.String(code, s)\<close>: a plain-text response with the given status and body.\<close>

definition String :: "nat \<Rightarrow> string \<Rightarrow> http_response" where
  "String code s =
     \<lparr>status = code, headers = [(''Content-Type'', ''text/plain; charset=UTF-8'')],
      body = s\<rparr>"

definition routes :: "(http_method \<times> string \<times> handler) list" where
  "routes = [(GET, ''/'', \<lambda>c. String StatusOK ''hello!'')]"

definition find_route ::
  "(http_method \<times> string \<times> handler) list \<Rightarrow> http_method \<Rightarrow> string \<Rightarrow> http_error + handler"
where
  "find_route rs meth path =
     (case List.find (\<lambda>(m', p', h). p' = path \<and> m' = meth) rs of
        Some (m', p', h) \<Rightarrow> Inr h
      | None \<Rightarrow>
          if list_ex (\<lambda>(m', p', h). p' = path) rs then Inl ErrMethodNotAllowed
          else Inl ErrNotFound)"

definition serveHTTP :: "http_request \<Rightarrow> http_error + http_response" where
  "serveHTTP req =
     (case find_route routes (req_method req) (req_path req) of
        Inl e \<Rightarrow> Inl e
      | Inr h \<Rightarrow> Inr (h req))"

section \<open>The Cache Engine (spec sections 3 and 4.1)\<close>

text \<open>
  Modelled from the spec: the error kinds of its section 7. The engine (package
  lazarette: Cache, NewCache, Set, Get) is not among the source files, which hold only
  its service definition, its store and its callers.
\<close>

datatype error_kind =
  NotFound | StoreUnavailable | InvalidArgument | ConnectionFailure | Canceled

text \<open>
  Modelled from the spec: the Value of section 3, "an opaque byte sequence paired with
  a Timestamp"; the engine's Value type is not among the source files. The spec asks
  of a timestamp only that instants are ordered, so the type of timestamps is any
  linear order.
\<close>

record 't Value =
  timestamp :: 't
  data :: "byte list"

text \<open>
  Modelled from the spec: the engine's state, whose type Cache is not among the source
  files. It holds the entries of the Store ("the durable association Key -> Value,
  held in the Store"), the "in-engine timestamp index" of key -> last-known timestamp,
  and the accepted writes handed to the Subscription Fan-out, oldest first.
\<close>

record 't Cache =
  store :: "string \<rightharpoonup> 't Value"
  index :: "string \<rightharpoonup> 't"
  fanout :: "(string \<times> 't Value) list"

text \<open>
  Modelled from the spec: NewCache, missing from the source files; an engine over an
  empty Store, as \<^verbatim>\<open>newCache\<close> of server_test.go leaves it after its Clean.
\<close>

definition NewCache :: "'t Cache" where
  "NewCache = \<lparr>store = Map.empty, index = Map.empty, fanout = []\<rparr>"

text \<open>
  Modelled from the spec: the accepting branch of Set (section 4.1, step 2), missing
  from the source files: "persist to Store, update the in-engine timestamp index, and
  hand the accepted (key, value) to the Subscription Fan-out for broadcast".
\<close>

definition accept :: "'t Cache \<Rightarrow> string \<Rightarrow> 't Value \<Rightarrow> 't Cache" where
  "accept c key v =
     c\<lparr>store := (store c)(key \<mapsto> v),
       index := (index c)(key \<mapsto> timestamp v),
       fanout := fanout c @ [(key, v)]\<rparr>"

text \<open>
  Modelled from the spec: Set of the Cache Engine (section 4.1), missing from the
  source files.
  \<^enum> "Look up the currently stored timestamp for key (absent = treated as the
    beginning of time)."
  \<^enum> "If the incoming timestamp is strictly newer than the stored timestamp (or no
    entry exists), accept [...]. Returns applied = true."
  \<^enum> "Otherwise, discard silently (idempotent no-op). Returns applied = false."
  The result is the applied flag, or an error kind, and the engine after the call.
\<close>

definition Cache_Set ::
  "('t::linorder) Cache \<Rightarrow> string \<Rightarrow> 't Value \<Rightarrow> (error_kind + bool) \<times> 't Cache"
where
  "Cache_Set c key v =
     (case index c key of
        None \<Rightarrow> (Inr True, accept c key v)
      | Some cur \<Rightarrow>
          if cur < timestamp v then (Inr True, accept c key v) else (Inr False, c))"

text \<open>
  Modelled from the spec: Get of the Cache Engine (section 4.1), missing from the
  source files: "reads current Value for key from the Store"; \<open>None\<close> is "not found".
\<close>

definition Cache_Get :: "'t Cache \<Rightarrow> string \<Rightarrow> 't Value option" where
  "Cache_Get c key = store c key"

text \<open>
  A sequence of Set calls, applied one after the other in their order of arrival; each
  call is a key and the value written to it. Sets adds nothing to Set: it is the
  caller's loop, used to state what a whole sequence of calls leaves behind.
\<close>

fun Sets :: "('t::linorder) Cache \<Rightarrow> (string \<times> 't Value) list \<Rightarrow> 't Cache" where
  "Sets c [] = c"
| "Sets c ((key, v) # calls) = Sets (snd (Cache_Set c key v)) calls"

text \<open>
  The timestamps of the calls issued for a key in a sequence of calls, in the order of
  the calls (a notion of the statements, not of the engine).
\<close>

definition issued :: "string \<Rightarrow> (string \<times> 't Value) list \<Rightarrow> 't list" where
  "issued key calls = map (\<lambda>kv. timestamp (snd kv)) (filter (\<lambda>kv. fst kv = key) calls)"

text \<open>
  The index mirrors the Store (section 3: the Entry is "held in the Store and mirrored
  by a lightweight in-engine timestamp index"): it knows a key exactly when the Store
  holds an entry for it, with that entry's timestamp.
\<close>

definition mirrors :: "'t Cache \<Rightarrow> bool" where
  "mirrors c = (\<forall>key. index c key = map_option timestamp (store c key))"

text \<open>For one key: a timestamp the index knows is the timestamp of the Store's entry.\<close>

definition agrees :: "'t Cache \<Rightarrow> string \<Rightarrow> bool" where
  "agrees c k =
     (case index c k of
        None \<Rightarrow> True
      | Some t \<Rightarrow> map_option timestamp (store c k) = Some t)"

section \<open>Properties of the in-memory store\<close>

lemma copy_make: "copy (make_bytes (len d)) d = Slice (elems d)"
  by (cases d) (simp_all add: make_bytes_def)

lemma Get_present:
  "m s (string_of key) = Some d \<Longrightarrow> Get s key = ((Slice (elems d), None), s)"
  by (simp add: Get_def copy_make)

lemma Get_absent:
  "m s (string_of key) = None \<Longrightarrow> Get s key = ((Nil_slice, None), s)"
  by (simp add: Get_def)

lemma Get_state: "snd (Get s key) = s"
  by (simp add: Get_def split: option.split)

lemma Get_after_Put:
  "fst (Get (snd (Put s key val)) key) = (Slice (elems val), None)"
  by (simp add: Get_def Put_def copy_make)

lemma Get_after_Put_other:
  "string_of key' \<noteq> string_of key \<Longrightarrow>
     fst (Get (snd (Put s key val)) key') = fst (Get s key')"
  by (simp add: Get_def Put_def split: option.split)

text \<open>
  Claim C8. Clean erases every entry: it returns the nil error, the map of the store
  after Clean is empty, and Get of any key on that store finds nothing (the nil slice,
  with the nil error).
\<close>

theorem Clean_erases_all:
  "fst (Clean s) = None \<and>
   m (snd (Clean s)) = Map.empty \<and>
   (\<forall>key. fst (Get (snd (Clean s)) key) = (Nil_slice, None))"
  by (simp add: Clean_def Get_def)

text \<open>
  Claim C9. Get does not change the store: the store after Get(k) is the store before
  it, entry for entry, and a Get(k') that follows returns what it would have returned
  without the first call.
\<close>

theorem Get_no_mutation:
  "snd (Get s k) = s \<and>
   m (snd (Get s k)) = m s \<and>
   fst (Get (snd (Get s k)) k') = fst (Get s k')"
  by (simp add: Get_state)

text \<open>
  Claim C10. Get, Put, Clean and Close return the nil error on every store and for
  every argument; Get of a key that has no entry returns the nil slice with the nil
  error.
\<close>

theorem memstore_nil_errors:
  "snd (fst (Get s key)) = None \<and>
   fst (Put s key val) = None \<and>
   fst (Clean s) = None \<and>
   fst (Close s) = None \<and>
   (m s (string_of key) = None \<longrightarrow> fst (Get s key) = (Nil_slice, None))"
  by (simp add: Get_def Put_def Clean_def Close_def split: option.split)

theorem memstore_nil_errors_witness:
  "m (snd (Put (fst NewStore) (Slice [0x6B]) (Slice [0x76]))) (string_of (Slice [0x61])) = None \<and>
   snd (fst (Get (snd (Put (fst NewStore) (Slice [0x6B]) (Slice [0x76]))) (Slice [0x61]))) = None \<and>
   fst (Put (snd (Put (fst NewStore) (Slice [0x6B]) (Slice [0x76]))) (Slice [0x61]) Nil_slice) = None \<and>
   fst (Clean (snd (Put (fst NewStore) (Slice [0x6B]) (Slice [0x76])))) = None \<and>
   fst (Close (snd (Put (fst NewStore) (Slice [0x6B]) (Slice [0x76])))) = None \<and>
   fst (Get (snd (Put (fst NewStore) (Slice [0x6B]) (Slice [0x76]))) (Slice [0x61])) =
     (Nil_slice, None)"
  using memstore_nil_errors
    [of "snd (Put (fst NewStore) (Slice [0x6B]) (Slice [0x76]))" "Slice [0x61]" Nil_slice]
  by (simp add: NewStore_def Put_def string_of_def)

section \<open>Properties of the RPC service definition\<close>

text \<open>
  Claim C5. The claim puts a ReplicateWith call on the RPC surface, next to Get, Set
  and Subscribe. The service of lazarette.proto declares exactly the rpcs Get, Set and
  Subscribe: it has no rpc named ReplicateWith, and no Replication message for its
  request.
\<close>

theorem Lazarette_has_no_ReplicateWith:
  "find_rpc ''ReplicateWith'' = None \<and>
   map rpc_name Lazarette = [''Get'', ''Set'', ''Subscribe''] \<and>
   ''Replication'' \<notin> set proto_messages"
  by (simp add: find_rpc_def Lazarette_def proto_messages_def)

section \<open>Properties of the HTTP listener\<close>

lemma serveHTTP_served:
  "serveHTTP req = Inr resp \<Longrightarrow>
     req_method req = GET \<and> req_path req = ''/'' \<and> resp = String StatusOK ''hello!''"
  by (auto simp: serveHTTP_def find_route_def routes_def split: if_splits sum.splits)

lemma serveHTTP_root: "serveHTTP \<lparr>req_method = GET, req_path = ''/'', req_body = b\<rparr>
     = Inr (String StatusOK ''hello!'')"
  by (simp add: serveHTTP_def find_route_def routes_def)

text \<open>
  Claim C6. The claim has PUT /cache/{key} answered with the body "updated {key}" and
  GET /cache/{key} with the stored bytes. serveHTTP registers the route GET / alone:
  a PUT or a GET of /cache/{key}, for every key and body, ends in the router's
  not-found error, and no handler runs.
\<close>

theorem serveHTTP_cache_not_found:
  "serveHTTP \<lparr>req_method = PUT, req_path = ''/cache/'' @ key, req_body = b\<rparr>
     = Inl ErrNotFound \<and>
   serveHTTP \<lparr>req_method = GET, req_path = ''/cache/'' @ key, req_body = b\<rparr>
     = Inl ErrNotFound"
  by (simp add: serveHTTP_def find_route_def routes_def)

text \<open>
  Claim C7. The claim has the response to GET /cache/{key} carry a Last-Modified
  header. The only response serveHTTP ever builds is that of GET /, whose headers
  hold Content-Type alone; GET /cache/ITB-1101-CP1, the request of TestHttpServer,
  gets no response from a handler at all.
\<close>

theorem serveHTTP_no_Last_Modified:
  "serveHTTP \<lparr>req_method = GET, req_path = ''/cache/ITB-1101-CP1'', req_body = []\<rparr>
     = Inl ErrNotFound \<and>
   map_of (headers (String StatusOK ''hello!'')) ''Last-Modified'' = None"
  by (simp add: serveHTTP_def find_route_def routes_def String_def)

section \<open>Properties of the Cache Engine\<close>

lemma mirrors_NewCache: "mirrors NewCache"
  by (simp add: mirrors_def NewCache_def)

lemma mirrors_Cache_Set: "mirrors c \<Longrightarrow> mirrors (snd (Cache_Set c key v))"
  by (simp add: mirrors_def Cache_Set_def accept_def split: option.split)

lemma mirrors_Sets: "mirrors c \<Longrightarrow> mirrors (Sets c calls)"
  by (induction c calls rule: Sets.induct) (simp_all add: mirrors_Cache_Set)

lemma Sets_append: "Sets c (xs @ ys) = Sets (Sets c xs) ys"
  by (induction c xs rule: Sets.induct) simp_all

lemma index_Cache_Set:
  "index (snd (Cache_Set c key v)) k =
     (if k = key
      then Some (case index c key of None \<Rightarrow> timestamp v | Some cur \<Rightarrow> max cur (timestamp v))
      else index c k)"
  by (auto simp: Cache_Set_def accept_def max_def split: option.split)

lemma issued_snoc:
  "issued k (calls @ [(key, v)]) = (if key = k then issued k calls @ [timestamp v] else issued k calls)"
  by (simp add: issued_def)

lemma index_Sets:
  "index (Sets c calls) k =
     (if issued k calls = [] then index c k
      else Some (case index c k of None \<Rightarrow> Max (set (issued k calls))
                 | Some t0 \<Rightarrow> max t0 (Max (set (issued k calls)))))"
proof (induction calls rule: rev_induct)
  case Nil
  show ?case by (simp add: issued_def)
next
  case (snoc x calls)
  obtain key v where x: "x = (key, v)" by (cases x)
  have step: "index (Sets c (calls @ [(key, v)])) k =
      (if k = key
       then Some (case index (Sets c calls) key of None \<Rightarrow> timestamp v
                  | Some cur \<Rightarrow> max cur (timestamp v))
       else index (Sets c calls) k)"
    by (simp add: Sets_append index_Cache_Set)
  show ?case
  proof (cases "key = k")
    case False
    then show ?thesis
      unfolding x step using snoc.IH by (simp add: issued_snoc split: option.split)
  next
    case True
    show ?thesis
    proof (cases "issued k calls = []")
      case True
      with \<open>key = k\<close> show ?thesis
        unfolding x step using snoc.IH
        by (simp add: issued_snoc split: option.split)
    next
      case False
      with \<open>key = k\<close> show ?thesis
        unfolding x step using snoc.IH
        by (simp add: issued_snoc max.commute max.left_commute split: option.split)
    qed
  qed
qed

lemma agrees_Cache_Set: "agrees c k \<Longrightarrow> agrees (snd (Cache_Set c key v)) k"
  by (auto simp: agrees_def Cache_Set_def accept_def split: option.splits)

lemma agrees_Sets: "agrees c k \<Longrightarrow> agrees (Sets c calls) k"
  by (induction c calls rule: Sets.induct) (simp_all add: agrees_Cache_Set)

lemma issued_mset:
  assumes "mset calls' = mset calls"
  shows "set (issued k calls') = set (issued k calls)"
proof -
  have "set calls' = set calls" using assms by (rule mset_eq_setD)
  then show ?thesis by (simp add: issued_def)
qed

lemma Cache_Set_rule:
  "Cache_Set c key v =
     (if index c key = None \<or> (\<exists>cur. index c key = Some cur \<and> cur < timestamp v)
      then (Inr True, accept c key v) else (Inr False, c))"
  by (simp add: Cache_Set_def split: option.split)

lemma mirrors_lookup:
  "mirrors c \<Longrightarrow>
     (index c key = None \<or> (\<exists>cur. index c key = Some cur \<and> cur < timestamp v)) =
     (Cache_Get c key = None \<or>
      (\<exists>old. Cache_Get c key = Some old \<and> timestamp old < timestamp v))"
  by (cases "store c key") (simp_all add: mirrors_def Cache_Get_def)

lemma Cache_Set_again:
  "fst (Cache_Set c k v) = Inr True \<Longrightarrow>
     Cache_Set (snd (Cache_Set c k v)) k v = (Inr False, snd (Cache_Set c k v))"
  by (auto simp: Cache_Set_def accept_def split: option.splits if_splits)

lemma Cache_Set_stored:
  "fst (Cache_Set c k v) = Inr True \<Longrightarrow> Cache_Get (snd (Cache_Set c k v)) k = Some v"
  by (auto simp: Cache_Get_def Cache_Set_def accept_def split: option.splits if_splits)

text \<open>
  Claim C1. For every key, Set applies the write exactly when the index knows no
  timestamp for the key or the incoming timestamp is strictly newer than the one it
  knows. An applied write returns applied = true and leaves the engine with the value
  persisted in the Store, the index updated and the pair handed to the fan-out; any
  other write, one with an equal timestamp included, returns applied = false, with no
  error, and leaves the engine as it was. Where the index mirrors the Store, the
  timestamp compared is that of the stored entry.
\<close>

theorem Cache_Set_conflict_rule:
  "(fst (Cache_Set c key v) = Inr True \<longleftrightarrow>
      index c key = None \<or> (\<exists>cur. index c key = Some cur \<and> cur < timestamp v)) \<and>
   (fst (Cache_Set c key v) = Inr True \<longrightarrow>
      snd (Cache_Set c key v) =
        c\<lparr>store := (store c)(key \<mapsto> v),
          index := (index c)(key \<mapsto> timestamp v),
          fanout := fanout c @ [(key, v)]\<rparr>) \<and>
   (fst (Cache_Set c key v) \<noteq> Inr True \<longrightarrow> Cache_Set c key v = (Inr False, c)) \<and>
   (index c key = Some (timestamp v) \<longrightarrow> Cache_Set c key v = (Inr False, c)) \<and>
   (mirrors c \<longrightarrow>
      (fst (Cache_Set c key v) = Inr True \<longleftrightarrow>
         Cache_Get c key = None \<or>
         (\<exists>old. Cache_Get c key = Some old \<and> timestamp old < timestamp v)))"
proof -
  let ?newer = "index c key = None \<or> (\<exists>cur. index c key = Some cur \<and> cur < timestamp v)"
  have applied: "fst (Cache_Set c key v) = Inr True \<longleftrightarrow> ?newer"
    by (simp only: Cache_Set_rule [of c key v] split: if_split) simp
  have accepted: "fst (Cache_Set c key v) = Inr True \<longrightarrow>
      snd (Cache_Set c key v) =
        c\<lparr>store := (store c)(key \<mapsto> v),
          index := (index c)(key \<mapsto> timestamp v),
          fanout := fanout c @ [(key, v)]\<rparr>"
    by (simp only: Cache_Set_rule [of c key v] accept_def split: if_split) simp
  have rejected: "fst (Cache_Set c key v) \<noteq> Inr True \<longrightarrow> Cache_Set c key v = (Inr False, c)"
    by (simp only: Cache_Set_rule [of c key v] split: if_split) simp
  have tie: "index c key = Some (timestamp v) \<longrightarrow> Cache_Set c key v = (Inr False, c)"
    by (simp add: Cache_Set_def)
  have stored: "mirrors c \<longrightarrow>
      (fst (Cache_Set c key v) = Inr True \<longleftrightarrow>
         Cache_Get c key = None \<or>
         (\<exists>old. Cache_Get c key = Some old \<and> timestamp old < timestamp v))"
    using applied mirrors_lookup [of c key v] by blast
  from applied accepted rejected tie stored show ?thesis by blast
qed

theorem Cache_Set_conflict_rule_witness:
  "mirrors (snd (Cache_Set (NewCache :: int Cache) ''room-1'' \<lparr>timestamp = 5, data = [1]\<rparr>)) \<and>
   index (snd (Cache_Set (NewCache :: int Cache) ''room-1'' \<lparr>timestamp = 5, data = [1]\<rparr>))
     ''room-1'' = Some 5 \<and>
   Cache_Set (snd (Cache_Set (NewCache :: int Cache) ''room-1'' \<lparr>timestamp = 5, data = [1]\<rparr>))
     ''room-1'' \<lparr>timestamp = 5, data = [2]\<rparr> =
     (Inr False, snd (Cache_Set NewCache ''room-1'' \<lparr>timestamp = 5, data = [1]\<rparr>)) \<and>
   fst (Cache_Set (snd (Cache_Set (NewCache :: int Cache) ''room-1'' \<lparr>timestamp = 5, data = [1]\<rparr>))
     ''room-1'' \<lparr>timestamp = 6, data = [2]\<rparr>) = Inr True"
proof -
  define c where "c = snd (Cache_Set (NewCache :: int Cache) ''room-1'' \<lparr>timestamp = 5, data = [1]\<rparr>)"
  have m: "mirrors c"
    by (simp add: c_def mirrors_def Cache_Set_def accept_def NewCache_def)
  have idx: "index c ''room-1'' = Some 5"
    by (simp add: c_def Cache_Set_def accept_def NewCache_def)
  have "index c ''room-1'' = Some (timestamp \<lparr>timestamp = 5 :: int, data = [2]\<rparr>) \<longrightarrow>
      Cache_Set c ''room-1'' \<lparr>timestamp = 5, data = [2]\<rparr> = (Inr False, c)"
    using Cache_Set_conflict_rule [of c "''room-1''" "\<lparr>timestamp = 5, data = [2]\<rparr>"] by blast
  with idx have tie: "Cache_Set c ''room-1'' \<lparr>timestamp = 5, data = [2]\<rparr> = (Inr False, c)"
    by simp
  have "fst (Cache_Set c ''room-1'' \<lparr>timestamp = 6, data = [2]\<rparr>) = Inr True \<longleftrightarrow>
      index c ''room-1'' = None \<or>
      (\<exists>cur. index c ''room-1'' = Some cur \<and> cur < timestamp \<lparr>timestamp = 6 :: int, data = [2]\<rparr>)"
    using Cache_Set_conflict_rule [of c "''room-1''" "\<lparr>timestamp = 6, data = [2]\<rparr>"] by blast
  with idx have newer: "fst (Cache_Set c ''room-1'' \<lparr>timestamp = 6, data = [2]\<rparr>) = Inr True"
    by simp
  from m idx tie newer show ?thesis unfolding c_def by (intro conjI)
qed

text \<open>
  Claim C2. For a key that has no entry before the sequence, and a sequence of Set
  calls (to any keys) that holds at least one call for the key: after the whole
  sequence, the timestamp the index holds for the key, and the timestamp of the
  stored entry, is the maximum of the timestamps of the calls issued for the key; so
  every reordering of the sequence ends with the same timestamp.
\<close>

theorem Sets_final_timestamp:
  assumes "index c k = None" and "issued k calls \<noteq> []"
  shows "index (Sets c calls) k = Some (Max (set (issued k calls))) \<and>
         map_option timestamp (Cache_Get (Sets c calls) k) = Some (Max (set (issued k calls))) \<and>
         (\<forall>calls'. mset calls' = mset calls \<longrightarrow>
            index (Sets c calls') k = index (Sets c calls) k \<and>
            map_option timestamp (Cache_Get (Sets c calls') k) =
              map_option timestamp (Cache_Get (Sets c calls) k))"
proof -
  have final: "index (Sets c xs) k = Some (Max (set (issued k xs))) \<and>
      map_option timestamp (Cache_Get (Sets c xs) k) = Some (Max (set (issued k xs)))"
    if "issued k xs \<noteq> []" for xs
  proof -
    have idx: "index (Sets c xs) k = Some (Max (set (issued k xs)))"
      using assms(1) that by (simp add: index_Sets)
    have "agrees c k" using assms(1) by (simp add: agrees_def)
    then have "agrees (Sets c xs) k" by (rule agrees_Sets)
    with idx show ?thesis by (simp add: agrees_def Cache_Get_def)
  qed
  have perm: "issued k calls' \<noteq> [] \<and> set (issued k calls') = set (issued k calls)"
    if "mset calls' = mset calls" for calls'
  proof -
    have s: "set (issued k calls') = set (issued k calls)" using that by (rule issued_mset)
    moreover have "set (issued k calls) \<noteq> {}" using assms(2) by simp
    ultimately show ?thesis by auto
  qed
  have any_order: "index (Sets c calls') k = index (Sets c calls) k \<and>
      map_option timestamp (Cache_Get (Sets c calls') k) =
        map_option timestamp (Cache_Get (Sets c calls) k)"
    if "mset calls' = mset calls" for calls'
  proof -
    from perm [OF that] have ne: "issued k calls' \<noteq> []"
      and same: "set (issued k calls') = set (issued k calls)" by blast+
    from final [OF ne] have "index (Sets c calls') k = Some (Max (set (issued k calls))) \<and>
        map_option timestamp (Cache_Get (Sets c calls') k) = Some (Max (set (issued k calls)))"
      unfolding same .
    with final [OF assms(2)] show ?thesis by (elim conjE) (simp only:)
  qed
  from final [OF assms(2)] any_order show ?thesis by blast
qed

theorem Sets_final_timestamp_witness:
  "index (NewCache :: int Cache) ''room-1'' = None \<and>
   issued ''room-1''
     [(''room-1'', \<lparr>timestamp = 5, data = [1]\<rparr>), (''room-2'', \<lparr>timestamp = 9, data = [2]\<rparr>),
      (''room-1'', \<lparr>timestamp = 7, data = [3]\<rparr>), (''room-1'', \<lparr>timestamp = 3, data = [4]\<rparr>)]
     = [5, 7, 3 :: int] \<and>
   index (Sets NewCache
     [(''room-1'', \<lparr>timestamp = 5, data = [1]\<rparr>), (''room-2'', \<lparr>timestamp = 9, data = [2]\<rparr>),
      (''room-1'', \<lparr>timestamp = 7, data = [3]\<rparr>), (''room-1'', \<lparr>timestamp = 3, data = [4]\<rparr>)])
     ''room-1'' = Some (7 :: int)"
proof -
  define calls where "calls =
     [(''room-1'', \<lparr>timestamp = 5 :: int, data = [1]\<rparr>), (''room-2'', \<lparr>timestamp = 9, data = [2]\<rparr>),
      (''room-1'', \<lparr>timestamp = 7, data = [3]\<rparr>), (''room-1'', \<lparr>timestamp = 3, data = [4]\<rparr>)]"
  have fresh: "index (NewCache :: int Cache) ''room-1'' = None"
    by (simp add: NewCache_def)
  have iss: "issued ''room-1'' calls = [5, 7, 3]"
    by (simp add: issued_def calls_def)
  then have ne: "issued ''room-1'' calls \<noteq> []" by simp
  have "index (Sets NewCache calls) ''room-1'' = Some (Max (set (issued ''room-1'' calls)))"
    using Sets_final_timestamp [OF fresh ne] by blast
  then have "index (Sets NewCache calls) ''room-1'' = Some 7"
    unfolding iss by simp
  with fresh iss show ?thesis unfolding calls_def by (intro conjI)
qed

text \<open>
  Claim C3. Set is idempotent: once Set(key, value) has been accepted, applying the
  same call n more times, for every n, leaves the engine as the first call left it;
  the stored value stays the accepted one, and every repeat returns applied = false.
\<close>

theorem Cache_Set_idempotent:
  assumes "fst (Cache_Set c k v) = Inr True"
  shows "((\<lambda>x. snd (Cache_Set x k v)) ^^ n) (snd (Cache_Set c k v)) = snd (Cache_Set c k v) \<and>
         Cache_Get (((\<lambda>x. snd (Cache_Set x k v)) ^^ n) (snd (Cache_Set c k v))) k = Some v \<and>
         fst (Cache_Set (((\<lambda>x. snd (Cache_Set x k v)) ^^ n) (snd (Cache_Set c k v))) k v) = Inr False"
proof -
  define c' where "c' = snd (Cache_Set c k v)"
  have again: "Cache_Set c' k v = (Inr False, c')"
    unfolding c'_def using assms by (rule Cache_Set_again)
  have fixed: "((\<lambda>x. snd (Cache_Set x k v)) ^^ n) c' = c'"
    by (induction n) (simp_all add: again)
  have stored: "Cache_Get c' k = Some v"
    unfolding c'_def using assms by (rule Cache_Set_stored)
  show ?thesis
    unfolding c'_def [symmetric] fixed using again stored by simp
qed

theorem Cache_Set_idempotent_witness:
  "fst (Cache_Set (NewCache :: int Cache) ''room-1'' \<lparr>timestamp = 5, data = [1]\<rparr>) = Inr True \<and>
   ((\<lambda>x. snd (Cache_Set x ''room-1'' \<lparr>timestamp = 5, data = [1]\<rparr>)) ^^ 3)
      (snd (Cache_Set (NewCache :: int Cache) ''room-1'' \<lparr>timestamp = 5, data = [1]\<rparr>)) =
     snd (Cache_Set NewCache ''room-1'' \<lparr>timestamp = 5, data = [1]\<rparr>) \<and>
   Cache_Get (((\<lambda>x. snd (Cache_Set x ''room-1'' \<lparr>timestamp = 5, data = [1]\<rparr>)) ^^ 3)
      (snd (Cache_Set (NewCache :: int Cache) ''room-1'' \<lparr>timestamp = 5, data = [1]\<rparr>))) ''room-1''
     = Some \<lparr>timestamp = 5, data = [1]\<rparr>"
proof -
  have first: "fst (Cache_Set (NewCache :: int Cache) ''room-1'' \<lparr>timestamp = 5, data = [1]\<rparr>)
      = Inr True"
    by (simp add: Cache_Set_def NewCache_def)
  from first Cache_Set_idempotent [OF first, of 3] show ?thesis by blast
qed

end
